theory Spec2Isabelle
  imports Main "HOL-Library.Word" "HOL-Library.Sublist"
begin

section \<open>The chat-completion client of \<open>completion.go\<close>\<close>

text \<open>
  The embedding follows \<open>src/groq/completion.go\<close>. Go's \<open>int\<close> is taken at its 64-bit
  width (\<open>go_int\<close>): \<open>*\<close> wraps around and \<open>sint\<close> reads the two's complement value.
  Byte slices and Go strings are \<open>string\<close>: the regular expression and \<open>strconv.Atoi\<close>
  only look at ASCII bytes.
\<close>

type_synonym go_int = "64 word"

subsection \<open>Library functions the parser calls\<close>

definition is_digit :: "char \<Rightarrow> bool" where
  "is_digit c = (48 \<le> (of_char c :: nat) \<and> (of_char c :: nat) \<le> 57)"

definition is_upper :: "char \<Rightarrow> bool" where
  "is_upper c = (65 \<le> (of_char c :: nat) \<and> (of_char c :: nat) \<le> 90)"

definition is_lower :: "char \<Rightarrow> bool" where
  "is_lower c = (97 \<le> (of_char c :: nat) \<and> (of_char c :: nat) \<le> 122)"

text \<open>The character class \<open>[a-zA-Z]\<close>.\<close>

definition is_letter :: "char \<Rightarrow> bool" where
  "is_letter c = (is_lower c \<or> is_upper c)"

definition digit_val :: "char \<Rightarrow> nat" where
  "digit_val c = of_char c - 48"

datatype NumError = ErrSyntax | ErrRange

text \<open>
  \<open>strconv.ParseUint(s, 10, 64)\<close> on a non-empty string: the digits are consumed from the
  left; a byte that is not a decimal digit is a syntax error, and a value beyond
  \<open>2 ^ 64 - 1\<close> is a range error reported at the digit where it happens (the bytes after
  it are not looked at). The accumulator is a \<open>uint64\<close>; it is kept as a \<open>nat\<close> with the
  two overflow tests of the library written out.
\<close>

definition maxUint64 :: nat where
  "maxUint64 = 2 ^ 64 - 1"

fun ParseUint_loop :: "nat \<Rightarrow> string \<Rightarrow> nat \<times> NumError option" where
  "ParseUint_loop n [] = (n, None)"
| "ParseUint_loop n (c # cs) =
     (if is_digit c then
        (if maxUint64 div 10 + 1 \<le> n then (maxUint64, Some ErrRange)
         else if maxUint64 < n * 10 + digit_val c then (maxUint64, Some ErrRange)
         else ParseUint_loop (n * 10 + digit_val c) cs)
      else (0, Some ErrSyntax))"

definition ParseUint :: "string \<Rightarrow> nat \<times> NumError option" where
  "ParseUint s = (if s = [] then (0, Some ErrSyntax) else ParseUint_loop 0 s)"

text \<open>
  \<open>strconv.Atoi\<close> on a 64-bit platform, by its general path \<open>ParseInt(s, 10, 0)\<close> (the
  fast path for strings shorter than 19 bytes returns the same values): an optional sign,
  then \<open>ParseUint\<close>; a syntax error returns 0, a magnitude outside the \<open>int64\<close> range
  returns the nearest bound together with a range error.
\<close>

definition Atoi :: "string \<Rightarrow> go_int \<times> NumError option" where
  "Atoi s =
     (case s of
        [] \<Rightarrow> (0, Some ErrSyntax)
      | c # cs \<Rightarrow>
          (let neg = (c = CHR ''-'');
               s1 = (if c = CHR ''+'' then cs else if c = CHR ''-'' then cs else s)
           in case ParseUint s1 of
                (un, Some ErrSyntax) \<Rightarrow> (0, Some ErrSyntax)
              | (un, r) \<Rightarrow>
                  (if \<not> neg \<and> 2 ^ 63 \<le> un then (word_of_nat (2 ^ 63 - 1), Some ErrRange)
                   else if neg \<and> 2 ^ 63 < un then (- word_of_nat (2 ^ 63), Some ErrRange)
                   else (if neg then - word_of_nat un else word_of_nat un, None))))"

text \<open>
  The regular expression \<open>Please try again in (\d+)([a-zA-Z]+)\.\<close> of
  \<open>extractRetryTime\<close>. \<open>match_here\<close> is a match that starts at the first byte of its
  argument: the literal, the longest run of digits, the longest run of letters, a dot.
  The three classes are disjoint, so no shorter run can lead to a match and the two
  groups are determined by the start position. \<open>FindStringSubmatch\<close> returns the match
  at the leftmost start position, as Go's \<open>regexp\<close> does; \<open>None\<close> is the nil slice, and
  \<open>Some (m1, m2)\<close> stands for the slice \<open>[whole, m1, m2]\<close>.
\<close>

definition retry_phrase :: string where
  "retry_phrase = ''Please try again in ''"

definition match_here :: "string \<Rightarrow> (string \<times> string) option" where
  "match_here s =
     (if prefix retry_phrase s then
        (let r = drop (length retry_phrase) s;
             ds = takeWhile is_digit r;
             r1 = dropWhile is_digit r;
             ls = takeWhile is_letter r1;
             r2 = dropWhile is_letter r1
         in if ds \<noteq> [] \<and> ls \<noteq> [] \<and> prefix ''.'' r2 then Some (ds, ls) else None)
      else None)"

fun FindStringSubmatch :: "string \<Rightarrow> (string \<times> string) option" where
  "FindStringSubmatch [] = None"
| "FindStringSubmatch (c # cs) =
     (case match_here (c # cs) of
        Some m \<Rightarrow> Some m
      | None \<Rightarrow> FindStringSubmatch cs)"

subsection \<open>The retry-delay parser\<close>

datatype parse_error =
    RetryTimeNotFound
  | AtoiFailed NumError
  | UnknownTimeUnit string

definition extractRetryTime :: "string \<Rightarrow> parse_error + go_int" where
  "extractRetryTime message =
     (case FindStringSubmatch message of
        None \<Rightarrow> Inl RetryTimeNotFound
      | Some (m1, m2) \<Rightarrow>
          (case Atoi m1 of
             (retryValue, Some err) \<Rightarrow> Inl (AtoiFailed err)
           | (retryValue, None) \<Rightarrow>
               (if m2 = ''ms'' then Inr retryValue
                else if m2 = ''s'' then Inr (retryValue * 1000)
                else if m2 = ''m'' then Inr (retryValue * 60 * 1000)
                else if m2 = ''h'' then Inr (retryValue * 60 * 60 * 1000)
                else Inl (UnknownTimeUnit m2))))"

definition ExtractRetryTime :: "string \<Rightarrow> parse_error + go_int" where
  "ExtractRetryTime s = extractRetryTime s"

subsection \<open>The client, the transport and the JSON codec\<close>

text \<open>
  The struct \<open>client\<close>, without the \<open>*http.Client\<close>: the transport is the field
  \<open>Do\<close> of the environment below.
\<close>

record client =
  apiKey :: string
  baseURL :: string
  max_wait_on_ratelimit_in_ms :: go_int
  wait_on_ratelimit :: bool

definition baseURL_const :: string where
  "baseURL_const = ''https://api.groq.com/openai''"

text \<open>
  \<open>NewClient\<close>, without its \<open>httpClient\<close> argument (the transport of the environment).
\<close>

definition NewClient :: "string \<Rightarrow> bool \<Rightarrow> go_int \<Rightarrow> client" where
  "NewClient key wait max_wait =
     \<lparr>apiKey = key, baseURL = baseURL_const,
      max_wait_on_ratelimit_in_ms = max_wait, wait_on_ratelimit = wait\<rparr>"

text \<open>
  \<open>Message\<close> is declared in another file of the package. Of the request, the fields of
  type \<open>float64\<close> and \<open>interface{}\<close> are left out: they are read by \<open>json.Marshal\<close>
  only, which is a parameter here. \<open>makeReq\<close> itself reads \<open>Stream\<close> alone. The
  response keeps its scalar fields (\<open>Model\<close> is \<open>ModelUsed\<close>, the name being taken by
  the request).
\<close>

record Message =
  Role :: string
  Content :: string

record ChatCompletionRequest =
  Messages :: "Message list"
  Model :: string
  MaxTokens :: go_int
  NumChoices :: go_int
  UserID :: string
  Stream :: bool
  Seed :: go_int

record ChatCompletionResponse =
  ID :: string
  Object :: string
  Created :: "64 word"
  ModelUsed :: string
  SystemFingerprint :: string

record ErrorResponse =
  ErrMessage :: string
  ErrType :: string
  ErrCode :: string

text \<open>
  What \<open>makeReq\<close> puts into the \<open>*http.Request\<close>, and what it reads from the
  \<open>*http.Response\<close>. \<open>Header_Get\<close> is \<open>resp.Header.Get\<close>: the empty string for an
  absent key (the headers are listed under the names the code asks for; Go's
  canonical spelling of header names is not modelled).
\<close>

record HttpRequest =
  Method :: string
  URL :: string
  ContentType :: string
  Authorization :: string
  Payload :: string

record Response =
  StatusCode :: int
  Header :: "(string \<times> string) list"

definition Header_Get :: "(string \<times> string) list \<Rightarrow> string \<Rightarrow> string" where
  "Header_Get h key = (case map_of h key of None \<Rightarrow> [] | Some v \<Rightarrow> v)"

text \<open>
  One round trip, \<open>c.client.Do\<close> followed by \<open>io.ReadAll\<close> of the body: the request
  is not sent or not answered, the body cannot be read, or a response arrives with its
  body.
\<close>

datatype send_result =
    SendFailed
  | ReadFailed Response
  | Received Response string

text \<open>
  The collaborators of the controller are parameters: \<open>json.Marshal\<close> of the request,
  \<open>http.NewRequest\<close> (does it accept the URL), the transport (\<open>Do e n\<close> answers the
  \<open>n\<close>-th request of the run, counting from 0), and \<open>json.Unmarshal\<close> into an
  \<open>ErrorResponse\<close> and into a \<open>ChatCompletionResponse\<close>.
\<close>

record env =
  Marshal :: "ChatCompletionRequest \<Rightarrow> string option"
  NewRequest :: "string \<Rightarrow> bool"
  Do :: "nat \<Rightarrow> HttpRequest \<Rightarrow> send_result"
  UnmarshalError :: "string \<Rightarrow> ErrorResponse option"
  UnmarshalResponse :: "string \<Rightarrow> ChatCompletionResponse option"

text \<open>
  The effects of a call: the requests handed to the transport, in order, and the
  durations passed to \<open>time.Sleep\<close> (a \<open>time.Duration\<close> is an \<open>int64\<close> of
  nanoseconds). The diagnostics printed with \<open>fmt.Println\<close> are not recorded.
\<close>

record world =
  sent :: "HttpRequest list"
  slept :: "64 word list"

text \<open>
  The errors of \<open>makeReq\<close> (lines 112, 119, 124, 131, 139) and of
  \<open>CreateChatCompletion\<close> (lines 154, 159, 178, 187); the arguments are the values the
  message is formatted from. \<open>Panicked\<close> is a run-time panic: the call does not return.
\<close>

datatype error =
    UseStreamEndpoint
  | MarshalFailed
  | CreateRequestFailed
  | SendRequestFailed
  | ReadBodyFailed
  | RetryBudgetExhausted nat nat int string
  | ErrorBodyUnmarshalFailed int string
  | RetryTimeParseFailed int string
  | ResponseUnmarshalFailed

datatype 'a outcome = Panicked | Returned 'a

definition Millisecond :: "64 word" where
  "Millisecond = 1000000"

definition Sleep :: "64 word \<Rightarrow> world \<Rightarrow> world" where
  "Sleep d w = w\<lparr>slept := slept w @ [d]\<rparr>"

definition completionsURL :: "client \<Rightarrow> string" where
  "completionsURL c = baseURL c @ ''/v1/chat/completions''"

definition newHttpRequest :: "client \<Rightarrow> string \<Rightarrow> string \<Rightarrow> HttpRequest" where
  "newHttpRequest c url jsonData =
     \<lparr>Method = ''POST'', URL = url, ContentType = ''application/json'',
      Authorization = ''Bearer '' @ apiKey c, Payload = jsonData\<rparr>"

text \<open>
  \<open>makeReq\<close> returns \<open>(nil, nil, err)\<close> on every failure: \<open>Inl err\<close>. The request is
  logged in \<open>sent\<close> when \<open>c.client.Do\<close> is called, whatever its outcome.
\<close>

definition makeReq ::
  "env \<Rightarrow> client \<Rightarrow> ChatCompletionRequest \<Rightarrow> world \<Rightarrow> (error + Response \<times> string) \<times> world" where
  "makeReq e c req w =
     (if Stream req then (Inl UseStreamEndpoint, w)
      else
        (let url = completionsURL c in
         case Marshal e req of
           None \<Rightarrow> (Inl MarshalFailed, w)
         | Some jsonData \<Rightarrow>
             (if NewRequest e url then
                (let httpReq = newHttpRequest c url jsonData;
                     w1 = w\<lparr>sent := sent w @ [httpReq]\<rparr>
                 in case Do e (length (sent w)) httpReq of
                      SendFailed \<Rightarrow> (Inl SendRequestFailed, w1)
                    | ReadFailed resp \<Rightarrow> (Inl ReadBodyFailed, w1)
                    | Received resp body \<Rightarrow> (Inr (resp, body), w1))
              else (Inl CreateRequestFailed, w))))"

definition maxRetry :: nat where
  "maxRetry = 5"

text \<open>
  The \<open>for\<close> loop of lines 151 to 181, entered with the current \<open>retry\<close>, response and
  body. It leaves by a panic, by a \<open>return\<close> of an error, or by its condition
  (\<open>LoopDone\<close>, with the response and body then current). Inside the loop body \<open>err\<close>
  is the variable declared with \<open>retrys\<close> at line 161: with waiting enabled it is
  overwritten by the error of the new \<open>makeReq\<close>, and when that one is not nil the
  \<open>return\<close> of line 178 reads \<open>resp.StatusCode\<close> of a nil response. With waiting
  disabled it is still the error of \<open>strconv.Atoi\<close>.
\<close>

datatype loop_exit =
    LoopPanic
  | LoopReturn error
  | LoopDone Response string

function retry_loop ::
  "env \<Rightarrow> client \<Rightarrow> ChatCompletionRequest \<Rightarrow> nat \<Rightarrow> Response \<Rightarrow> string \<Rightarrow> world
     \<Rightarrow> loop_exit \<times> world" where
  "retry_loop e c req retry resp body w =
     (if StatusCode resp = 429 \<and> retry \<le> maxRetry then
        (if retry + 1 > maxRetry
         then (LoopReturn (RetryBudgetExhausted (retry + 1) maxRetry (StatusCode resp) body), w)
         else
           (case UnmarshalError e body of
              None \<Rightarrow> (LoopReturn (ErrorBodyUnmarshalFailed (StatusCode resp) body), w)
            | Some errResp \<Rightarrow>
                (case Atoi (Header_Get (Header resp) ''retry-after'') of
                   (retrys, err) \<Rightarrow>
                     (let retryMs = retrys * 1000 in
                      if wait_on_ratelimit c then
                        (let retryMs1 =
                               (if max_wait_on_ratelimit_in_ms c <s retryMs
                                then max_wait_on_ratelimit_in_ms c else retryMs);
                             w1 = Sleep (retryMs1 * Millisecond) w
                         in case makeReq e c req w1 of
                              (Inl err1, w2) \<Rightarrow> (LoopPanic, w2)
                            | (Inr (resp1, body1), w2) \<Rightarrow>
                                retry_loop e c req (retry + 1) resp1 body1 w2)
                      else
                        (case err of
                           Some err1 \<Rightarrow>
                             (LoopReturn (RetryTimeParseFailed (StatusCode resp) body), w)
                         | None \<Rightarrow> retry_loop e c req (retry + 1) resp body w)))))
      else (LoopDone resp body, w))"
  by pat_completeness auto
termination
  by (relation "measure (\<lambda>(e, c, req, retry, resp, body, w). Suc maxRetry - retry)") auto

declare retry_loop.simps [simp del]

text \<open>
  \<open>after_loop\<close> is what follows the loop: a panic or a \<open>return\<close> inside it ends the
  call, and otherwise lines 185 to 190 decode the body then current.
  \<open>CreateChatCompletion\<close> does not test the error of the first \<open>makeReq\<close>: line 148
  reads \<open>resp.StatusCode\<close>, and \<open>resp\<close> is nil whenever \<open>makeReq\<close> failed.
\<close>

definition after_loop ::
  "env \<Rightarrow> loop_exit \<times> world \<Rightarrow> (error + ChatCompletionResponse) outcome \<times> world" where
  "after_loop e x =
     (case x of
        (LoopPanic, w2) \<Rightarrow> (Panicked, w2)
      | (LoopReturn err, w2) \<Rightarrow> (Returned (Inl err), w2)
      | (LoopDone resp1 body1, w2) \<Rightarrow>
          (case UnmarshalResponse e body1 of
             None \<Rightarrow> (Returned (Inl ResponseUnmarshalFailed), w2)
           | Some chatResp \<Rightarrow> (Returned (Inr chatResp), w2)))"

definition CreateChatCompletion ::
  "env \<Rightarrow> client \<Rightarrow> ChatCompletionRequest \<Rightarrow> world
     \<Rightarrow> (error + ChatCompletionResponse) outcome \<times> world" where
  "CreateChatCompletion e c req w =
     (case makeReq e c req w of
        (Inl err, w1) \<Rightarrow> (Panicked, w1)
      | (Inr (resp, body), w1) \<Rightarrow>
          after_loop e
            (if StatusCode resp \<noteq> 200 then retry_loop e c req 0 resp body w1
             else (LoopDone resp body, w1)))"

text \<open>
  The duration one pass of the loop hands to \<open>time.Sleep\<close> for the response it holds
  (lines 161 to 169, as the loop above computes it): the header read by
  \<open>strconv.Atoi\<close> whatever its error, times 1000, replaced by the configured maximum
  when that is smaller, converted to a \<open>time.Duration\<close>.
\<close>

definition retry_wait :: "client \<Rightarrow> Response \<Rightarrow> 64 word" where
  "retry_wait c resp =
     (let retryMs = fst (Atoi (Header_Get (Header resp) ''retry-after'')) * 1000
      in (if max_wait_on_ratelimit_in_ms c <s retryMs
          then max_wait_on_ratelimit_in_ms c else retryMs) * Millisecond)"

text \<open>
  The request \<open>makeReq\<close> hands to the transport when the body marshals to \<open>j\<close>.
\<close>

definition wire_request :: "client \<Rightarrow> string \<Rightarrow> HttpRequest" where
  "wire_request c j = newHttpRequest c (completionsURL c) j"

subsection \<open>Scenarios\<close>

text \<open>
  A client, a request, two responses and an environment whose transport is scripted by
  the index of the request. Its codec refuses the body \<open>garbage\<close> and accepts every
  other one for both structs, as \<open>json.Unmarshal\<close> does with any JSON object.
\<close>

definition demo_client :: "bool \<Rightarrow> client" where
  "demo_client wait = NewClient ''key'' wait 5000"

definition demo_request :: ChatCompletionRequest where
  "demo_request =
     \<lparr>Messages = [\<lparr>Role = ''user'', Content = ''hello''\<rparr>], Model = ''llama3-8b-8192'',
      MaxTokens = 0, NumChoices = 0, UserID = [], Stream = False, Seed = 0\<rparr>"

definition demo_payload :: ChatCompletionResponse where
  "demo_payload =
     \<lparr>ID = ''chatcmpl-1'', Object = ''chat.completion'', Created = 0,
      ModelUsed = ''llama3-8b-8192'', SystemFingerprint = []\<rparr>"

definition rate_limited :: "string \<Rightarrow> Response" where
  "rate_limited after = \<lparr>StatusCode = 429, Header = [(''retry-after'', after)]\<rparr>"

definition ok_response :: Response where
  "ok_response = \<lparr>StatusCode = 200, Header = []\<rparr>"

definition demo_env :: "(nat \<Rightarrow> send_result) \<Rightarrow> env" where
  "demo_env t =
     \<lparr>Marshal = (\<lambda>r. Some ''{}''),
      NewRequest = (\<lambda>u. True),
      Do = (\<lambda>n q. t n),
      UnmarshalError = (\<lambda>b. if b = ''garbage'' then None
         else Some \<lparr>ErrMessage = b, ErrType = [], ErrCode = []\<rparr>),
      UnmarshalResponse = (\<lambda>b. if b = ''garbage'' then None else Some demo_payload)\<rparr>"

definition fresh :: world where
  "fresh = \<lparr>sent = [], slept = []\<rparr>"

subsection \<open>Notions of the specification\<close>

text \<open>
  The value of a decimal numeral, the shape
  \<open>Please try again in <number><unit>.\<close> found at offset \<open>k\<close> of a message with the
  digits \<open>N\<close> and the letters \<open>u\<close>, the four recognised units and the milliseconds
  each one stands for. These follow the words of the specification; the theorems
  compare them with the parser.
\<close>

definition decimal :: "string \<Rightarrow> nat" where
  "decimal ds = foldl (\<lambda>n c. n * 10 + digit_val c) 0 ds"

definition pattern_at :: "string \<Rightarrow> nat \<Rightarrow> string \<Rightarrow> string \<Rightarrow> bool" where
  "pattern_at msg k N u =
     (N \<noteq> [] \<and> list_all is_digit N \<and> u \<noteq> [] \<and> list_all is_letter u \<and>
      prefix (retry_phrase @ N @ u @ ''.'') (drop k msg))"

definition known_unit :: "string \<Rightarrow> bool" where
  "known_unit u = (u = ''ms'' \<or> u = ''s'' \<or> u = ''m'' \<or> u = ''h'')"

definition unit_millis :: "string \<Rightarrow> nat" where
  "unit_millis u =
     (if u = ''ms'' then 1 else if u = ''s'' then 1000
      else if u = ''m'' then 60000 else if u = ''h'' then 3600000 else 0)"

section \<open>The retry-delay parser: lemmas\<close>

subsection \<open>\<open>strconv.Atoi\<close> on a run of digits\<close>

lemma foldl_digits_ge: "n \<le> foldl (\<lambda>n c. n * 10 + digit_val c) n ds"
proof (induction ds arbitrary: n)
  case Nil
  show ?case by simp
next
  case (Cons c cs)
  have "n \<le> n * 10 + digit_val c" by simp
  also have "\<dots> \<le> foldl (\<lambda>n c. n * 10 + digit_val c) (n * 10 + digit_val c) cs"
    by (rule Cons.IH)
  finally show ?case by simp
qed

lemma ParseUint_loop_digits:
  "list_all is_digit ds \<Longrightarrow>
   ParseUint_loop n ds =
     (if ds = [] \<or> foldl (\<lambda>n c. n * 10 + digit_val c) n ds \<le> maxUint64
      then (foldl (\<lambda>n c. n * 10 + digit_val c) n ds, None)
      else (maxUint64, Some ErrRange))"
proof (induction ds arbitrary: n)
  case Nil
  show ?case by simp
next
  case (Cons c cs)
  let ?f = "\<lambda>n c. n * 10 + digit_val c"
  from Cons.prems have dc: "is_digit c" and dcs: "list_all is_digit cs" by simp_all
  have ge: "n * 10 + digit_val c \<le> foldl ?f (n * 10 + digit_val c) cs"
    by (rule foldl_digits_ge)
  show ?case
  proof (cases "maxUint64 div 10 + 1 \<le> n")
    case True
    then have "maxUint64 < n * 10" by (simp add: maxUint64_def)
    with ge have "maxUint64 < foldl ?f (n * 10 + digit_val c) cs" by linarith
    with True dc show ?thesis by simp
  next
    case False
    show ?thesis
    proof (cases "maxUint64 < n * 10 + digit_val c")
      case True
      with ge have "maxUint64 < foldl ?f (n * 10 + digit_val c) cs" by linarith
      with True False dc show ?thesis by simp
    next
      case b: False
      with False dc Cons.IH [OF dcs, of "n * 10 + digit_val c"] show ?thesis
        by (cases cs) auto
    qed
  qed
qed

lemma digit_not_sign: "is_digit c \<Longrightarrow> c \<noteq> CHR ''+'' \<and> c \<noteq> CHR ''-''"
  by (auto simp: is_digit_def)

lemma Atoi_digits:
  assumes "N \<noteq> []" and "list_all is_digit N"
  shows "Atoi N = (if decimal N < 2 ^ 63 then (word_of_nat (decimal N), None)
                   else (word_of_nat (2 ^ 63 - 1), Some ErrRange))"
proof -
  from assms obtain c cs where N: "N = c # cs" by (cases N) auto
  with assms have "is_digit c" by simp
  then have ns: "c \<noteq> CHR ''+''" "c \<noteq> CHR ''-''" using digit_not_sign by auto
  have pu: "ParseUint N = (if decimal N \<le> maxUint64 then (decimal N, None) else (maxUint64, Some ErrRange))"
    using assms by (simp add: ParseUint_def ParseUint_loop_digits decimal_def)
  show ?thesis
  proof (cases "decimal N \<le> maxUint64")
    case True
    with pu have "ParseUint (c # cs) = (decimal N, None)" by (simp add: N)
    then show ?thesis using ns by (simp add: Atoi_def N)
  next
    case False
    with pu have "ParseUint (c # cs) = (maxUint64, Some ErrRange)" by (simp add: N)
    moreover from False have "\<not> decimal N < 2 ^ 63" by (simp add: maxUint64_def)
    ultimately show ?thesis using ns by (simp add: Atoi_def N maxUint64_def)
  qed
qed

subsection \<open>The regular expression\<close>

lemma letter_not_digit: "is_letter c \<Longrightarrow> \<not> is_digit c"
  by (auto simp: is_letter_def is_lower_def is_upper_def is_digit_def)

lemma dot_not_letter: "\<not> is_letter (CHR ''.'')"
  by (simp add: is_letter_def is_lower_def is_upper_def)

lemma takeWhile_run:
  assumes "list_all P xs" and "ys = [] \<or> \<not> P (hd ys)"
  shows "takeWhile P (xs @ ys) = xs" and "dropWhile P (xs @ ys) = ys"
proof -
  from assms(1) have a: "\<And>x. x \<in> set xs \<Longrightarrow> P x" by (simp add: list_all_iff)
  from assms(2) have t: "takeWhile P ys = []" and d: "dropWhile P ys = ys"
    by (cases ys; auto)+
  show "takeWhile P (xs @ ys) = xs" using a t by (simp add: takeWhile_append2)
  show "dropWhile P (xs @ ys) = ys" using a d by (simp add: dropWhile_append2)
qed

lemma match_here_iff:
  "match_here s = Some (N, u) \<longleftrightarrow> pattern_at s 0 N u"
proof
  assume m: "match_here s = Some (N, u)"
  then have p: "prefix retry_phrase s"
    by (auto simp: match_here_def split: if_splits)
  define r where "r = drop (length retry_phrase) s"
  from p have s: "s = retry_phrase @ r"
    by (auto simp: r_def prefix_def)
  from m p have N: "N = takeWhile is_digit r" and u: "u = takeWhile is_letter (dropWhile is_digit r)"
    and ne: "N \<noteq> []" "u \<noteq> []"
    and dot: "prefix ''.'' (dropWhile is_letter (dropWhile is_digit r))"
    by (auto simp: match_here_def Let_def r_def split: if_splits)
  have r: "r = N @ u @ dropWhile is_letter (dropWhile is_digit r)"
    by (simp add: N u)
  from dot obtain post where "dropWhile is_letter (dropWhile is_digit r) = ''.'' @ post"
    by (auto simp: prefix_def)
  with r have "r = N @ u @ ''.'' @ post" by simp
  with s have "prefix (retry_phrase @ N @ u @ ''.'') s"
    by (auto simp: prefix_def)
  moreover have "list_all is_digit N" unfolding N list_all_iff
    by (auto dest: set_takeWhileD)
  moreover have "list_all is_letter u" unfolding u list_all_iff
    by (auto dest: set_takeWhileD)
  ultimately show "pattern_at s 0 N u" using ne by (simp add: pattern_at_def)
next
  assume "pattern_at s 0 N u"
  then have ne: "N \<noteq> []" "u \<noteq> []" and dN: "list_all is_digit N" and lu: "list_all is_letter u"
    and p: "prefix (retry_phrase @ N @ u @ ''.'') s"
    by (simp_all add: pattern_at_def)
  from p obtain post where s0: "s = (retry_phrase @ N @ u @ ''.'') @ post"
    unfolding prefix_def by blast
  define rest where "rest = CHR ''.'' # post"
  from s0 have s: "s = retry_phrase @ N @ u @ rest" by (simp add: rest_def)
  from ne lu have "is_letter (hd u)" by (cases u) auto
  then have hu: "\<not> is_digit (hd (u @ rest))" using ne letter_not_digit by simp
  have t1: "takeWhile is_digit (N @ u @ rest) = N"
    and d1: "dropWhile is_digit (N @ u @ rest) = u @ rest"
    using takeWhile_run [OF dN, of "u @ rest"] hu by simp_all
  have hr: "\<not> is_letter (hd rest)" by (simp add: rest_def dot_not_letter)
  have t2: "takeWhile is_letter (u @ rest) = u"
    and d2: "dropWhile is_letter (u @ rest) = rest"
    using takeWhile_run [OF lu, of rest] hr by simp_all
  have pr: "prefix ''.'' rest" by (simp add: rest_def)
  show "match_here s = Some (N, u)"
    unfolding match_here_def s using ne pr by (simp add: Let_def t1 d1 t2 d2)
qed

lemma pattern_at_drop: "pattern_at msg k N u \<longleftrightarrow> pattern_at (drop k msg) 0 N u"
  by (simp add: pattern_at_def)

lemma match_here_Nil: "match_here [] = None"
  by (simp add: match_here_def retry_phrase_def)

lemma Find_None:
  "FindStringSubmatch s = None \<longleftrightarrow> (\<forall>k. match_here (drop k s) = None)"
proof (induction s)
  case Nil
  show ?case by (simp add: match_here_Nil)
next
  case (Cons c cs)
  show ?case
  proof (cases "match_here (c # cs)")
    case None
    have "(\<forall>k. match_here (drop k (c # cs)) = None) \<longleftrightarrow> (\<forall>k. match_here (drop k cs) = None)"
    proof
      assume a: "\<forall>k. match_here (drop k (c # cs)) = None"
      show "\<forall>k. match_here (drop k cs) = None"
      proof
        fix k from a have "match_here (drop (Suc k) (c # cs)) = None" by blast
        then show "match_here (drop k cs) = None" by simp
      qed
    next
      assume a: "\<forall>k. match_here (drop k cs) = None"
      show "\<forall>k. match_here (drop k (c # cs)) = None"
      proof
        fix k show "match_here (drop k (c # cs)) = None"
          using a None by (cases k) auto
      qed
    qed
    with None Cons.IH show ?thesis by simp
  next
    case (Some m)
    then have "match_here (drop 0 (c # cs)) \<noteq> None" by simp
    then have "\<not> (\<forall>k. match_here (drop k (c # cs)) = None)" by (intro notI) (erule allE [of _ 0], simp)
    with Some show ?thesis by simp
  qed
qed

lemma Find_leftmost:
  "match_here (drop k s) = Some m \<Longrightarrow> (\<forall>j<k. match_here (drop j s) = None) \<Longrightarrow>
   FindStringSubmatch s = Some m"
proof (induction s arbitrary: k)
  case Nil
  then show ?case by (simp add: match_here_Nil)
next
  case (Cons c cs)
  show ?case
  proof (cases k)
    case 0
    with Cons.prems show ?thesis by simp
  next
    case (Suc k')
    with Cons.prems have h: "match_here (c # cs) = None"
      by (metis drop0 zero_less_Suc)
    from Cons.prems Suc have a: "match_here (drop k' cs) = Some m" by simp
    have b: "\<forall>j<k'. match_here (drop j cs) = None"
    proof (intro allI impI)
      fix j assume "j < k'"
      then have "Suc j < k" using Suc by simp
      with Cons.prems have "match_here (drop (Suc j) (c # cs)) = None" by blast
      then show "match_here (drop j cs) = None" by simp
    qed
    from Cons.IH [OF a b] h show ?thesis by simp
  qed
qed

lemma no_pattern_iff:
  "(\<forall>k N u. \<not> pattern_at msg k N u) \<longleftrightarrow> FindStringSubmatch msg = None"
proof -
  have "(\<forall>k N u. \<not> pattern_at msg k N u) \<longleftrightarrow> (\<forall>k. match_here (drop k msg) = None)"
  proof
    assume a: "\<forall>k N u. \<not> pattern_at msg k N u"
    show "\<forall>k. match_here (drop k msg) = None"
    proof
      fix k
      show "match_here (drop k msg) = None"
      proof (cases "match_here (drop k msg)")
        case None then show ?thesis .
      next
        case (Some m)
        obtain N u where "m = (N, u)" by (cases m)
        with Some have "pattern_at (drop k msg) 0 N u" by (simp add: match_here_iff)
        then have "pattern_at msg k N u" by (simp add: pattern_at_drop [of msg k])
        with a show ?thesis by blast
      qed
    qed
  next
    assume a: "\<forall>k. match_here (drop k msg) = None"
    show "\<forall>k N u. \<not> pattern_at msg k N u"
    proof (intro allI notI)
      fix k N u assume "pattern_at msg k N u"
      then have "pattern_at (drop k msg) 0 N u" by (simp add: pattern_at_drop [of msg k])
      then have "match_here (drop k msg) = Some (N, u)" by (simp add: match_here_iff)
      with a show False by simp
    qed
  qed
  then show ?thesis by (simp add: Find_None)
qed

lemma no_pattern_before_iff:
  "(\<forall>j<k. \<forall>N u. \<not> pattern_at msg j N u) \<longleftrightarrow> (\<forall>j<k. match_here (drop j msg) = None)"
proof -
  have "(\<forall>N u. \<not> pattern_at msg j N u) \<longleftrightarrow> match_here (drop j msg) = None" for j
  proof
    assume a: "\<forall>N u. \<not> pattern_at msg j N u"
    show "match_here (drop j msg) = None"
    proof (cases "match_here (drop j msg)")
      case None then show ?thesis .
    next
      case (Some m)
      obtain N u where "m = (N, u)" by (cases m)
      with Some have "pattern_at (drop j msg) 0 N u" by (simp add: match_here_iff)
      then have "pattern_at msg j N u" by (simp add: pattern_at_drop [of msg j])
      with a show ?thesis by blast
    qed
  next
    assume a: "match_here (drop j msg) = None"
    show "\<forall>N u. \<not> pattern_at msg j N u"
    proof (intro allI notI)
      fix N u assume "pattern_at msg j N u"
      then have "pattern_at (drop j msg) 0 N u" by (simp add: pattern_at_drop [of msg j])
      then have "match_here (drop j msg) = Some (N, u)" by (simp add: match_here_iff)
      with a show False by simp
    qed
  qed
  then show ?thesis by simp
qed

lemma Find_pattern:
  assumes "pattern_at msg k N u" and "\<forall>j<k. \<forall>N' u'. \<not> pattern_at msg j N' u'"
  shows "FindStringSubmatch msg = Some (N, u)"
proof -
  from assms(1) have "pattern_at (drop k msg) 0 N u" by (simp add: pattern_at_drop [of msg k])
  then have m: "match_here (drop k msg) = Some (N, u)" by (simp add: match_here_iff)
  from assms(2) have "\<forall>j<k. match_here (drop j msg) = None"
    by (simp add: no_pattern_before_iff)
  with m show ?thesis by (rule Find_leftmost)
qed

lemma word_unit_millis:
  "known_unit u \<Longrightarrow>
   (if u = ''ms'' then Inr (w :: go_int)
    else if u = ''s'' then Inr (w * 1000)
    else if u = ''m'' then Inr (w * 60 * 1000)
    else if u = ''h'' then Inr (w * 60 * 60 * 1000)
    else Inl (UnknownTimeUnit u)) = (Inr (w * word_of_nat (unit_millis u)) :: parse_error + go_int)"
  by (auto simp: known_unit_def unit_millis_def)

lemma extractRetryTime_leftmost:
  assumes "pattern_at msg k N u" and "\<forall>j<k. \<forall>N' u'. \<not> pattern_at msg j N' u'"
  shows "extractRetryTime msg =
           (if 2 ^ 63 \<le> decimal N then Inl (AtoiFailed ErrRange)
            else if known_unit u then Inr (word_of_nat (decimal N * unit_millis u))
            else Inl (UnknownTimeUnit u))"
proof -
  have f: "FindStringSubmatch msg = Some (N, u)" using assms by (rule Find_pattern)
  from assms(1) have N: "N \<noteq> []" "list_all is_digit N" by (simp_all add: pattern_at_def)
  show ?thesis
  proof (cases "2 ^ 63 \<le> decimal N")
    case True
    then have "Atoi N = (word_of_nat (2 ^ 63 - 1), Some ErrRange)"
      using Atoi_digits [OF N] by simp
    with f True show ?thesis by (simp add: extractRetryTime_def)
  next
    case False
    then have a: "Atoi N = (word_of_nat (decimal N), None)"
      using Atoi_digits [OF N] by simp
    show ?thesis
    proof (cases "known_unit u")
      case True
      with f a False show ?thesis
        by (simp add: extractRetryTime_def word_unit_millis)
    next
      case k: False
      with f a False show ?thesis
        by (simp add: extractRetryTime_def known_unit_def)
    qed
  qed
qed

lemma sint_word_of_nat_small:
  "n < 2 ^ 63 \<Longrightarrow> sint (word_of_nat n :: go_int) = int n"
proof -
  assume a: "n < 2 ^ 63"
  have "sint (word_of_nat n :: go_int) = signed_take_bit 63 (int n)"
    by (simp add: sint_uint unsigned_of_nat take_bit_of_nat signed_take_bit_eq_iff_take_bit_eq)
  also have "\<dots> = int n"
    using a by (simp add: signed_take_bit_int_eq_self_iff)
  finally show ?thesis .
qed

lemma known_unit_lower: "known_unit u \<Longrightarrow> \<not> list_ex is_upper u"
  by (auto simp: known_unit_def is_upper_def)

lemma pattern_leftmost_exists:
  assumes "pattern_at msg k N u"
  shows "\<exists>i M v. pattern_at msg i M v \<and> (\<forall>j<i. \<forall>N' u'. \<not> pattern_at msg j N' u')"
proof -
  define P where "P = (\<lambda>j. \<exists>M v. pattern_at msg j M v)"
  from assms have "P k" unfolding P_def by blast
  then have l: "P (LEAST j. P j)" by (rule LeastI)
  have m: "\<forall>j<(LEAST j. P j). \<not> P j" using not_less_Least by blast
  from l obtain M v where "pattern_at msg (LEAST j. P j) M v" unfolding P_def by blast
  with m show ?thesis unfolding P_def by blast
qed

lemma extractRetryTime_isl:
  "isl (extractRetryTime msg) =
     ((\<forall>i M v. \<not> pattern_at msg i M v) \<or>
      (\<exists>i M v. pattern_at msg i M v \<and> (\<forall>j<i. \<forall>N' u'. \<not> pattern_at msg j N' u') \<and>
         (2 ^ 63 \<le> decimal M \<or> \<not> known_unit v)))"
proof (cases "\<forall>i M v. \<not> pattern_at msg i M v")
  case True
  then have "FindStringSubmatch msg = None" by (simp only: no_pattern_iff)
  then have "isl (extractRetryTime msg)" by (simp add: extractRetryTime_def)
  with True show ?thesis by blast
next
  case False
  then obtain k N u where "pattern_at msg k N u" by blast
  then obtain i M v where p: "pattern_at msg i M v"
    and l: "\<forall>j<i. \<forall>N' u'. \<not> pattern_at msg j N' u'"
    using pattern_leftmost_exists by blast
  have e: "extractRetryTime msg =
           (if 2 ^ 63 \<le> decimal M then Inl (AtoiFailed ErrRange)
            else if known_unit v then Inr (word_of_nat (decimal M * unit_millis v))
            else Inl (UnknownTimeUnit v))"
    using p l by (rule extractRetryTime_leftmost)
  have f: "FindStringSubmatch msg = Some (M, v)" using p l by (rule Find_pattern)
  show ?thesis
  proof
    assume "isl (extractRetryTime msg)"
    then have "2 ^ 63 \<le> decimal M \<or> \<not> known_unit v" unfolding e by (auto split: if_splits)
    with p l show "(\<forall>i M v. \<not> pattern_at msg i M v) \<or>
      (\<exists>i M v. pattern_at msg i M v \<and> (\<forall>j<i. \<forall>N' u'. \<not> pattern_at msg j N' u') \<and>
         (2 ^ 63 \<le> decimal M \<or> \<not> known_unit v))" by blast
  next
    assume "(\<forall>i M v. \<not> pattern_at msg i M v) \<or>
      (\<exists>i M v. pattern_at msg i M v \<and> (\<forall>j<i. \<forall>N' u'. \<not> pattern_at msg j N' u') \<and>
         (2 ^ 63 \<le> decimal M \<or> \<not> known_unit v))"
    with False obtain i' M' v' where p': "pattern_at msg i' M' v'"
      and l': "\<forall>j<i'. \<forall>N' u'. \<not> pattern_at msg j N' u'"
      and c': "2 ^ 63 \<le> decimal M' \<or> \<not> known_unit v'" by blast
    have "FindStringSubmatch msg = Some (M', v')" using p' l' by (rule Find_pattern)
    with f have "M' = M" "v' = v" by simp_all
    with c' show "isl (extractRetryTime msg)" unfolding e by auto
  qed
qed

lemmas parser_eval = extractRetryTime_def match_here_def retry_phrase_def is_digit_def
  is_letter_def is_lower_def is_upper_def Atoi_def ParseUint_def maxUint64_def digit_val_def

section \<open>The retry-delay parser: claims\<close>

text \<open>
  A number that does not fit Go's \<open>int\<close> is refused by \<open>strconv.Atoi\<close> (line 202) and
  the parser returns that error; a product beyond \<open>2 ^ 63 - 1\<close> wraps around; and when
  the message holds the shape twice, \<open>FindStringSubmatch\<close> reads the first one only.
\<close>

theorem extractRetryTime_units_counterexample:
  "extractRetryTime ''Please try again in 9223372036854775808s.'' = Inl (AtoiFailed ErrRange) \<and>
   extractRetryTime ''Please try again in 9223372036854775807h.'' = Inr (- 3600000) \<and>
   extractRetryTime ''Please try again in 5x. Please try again in 5s.'' =
     Inl (UnknownTimeUnit ''x'')"
  by (simp add: parser_eval)

text \<open>
  Claim C3, as amended. Let the leftmost substring of the shape
  \<open>Please try again in <N><unit>.\<close> of a message have the digits \<open>N\<close> and the unit
  \<open>u\<close>, one of \<open>ms\<close>, \<open>s\<close>, \<open>m\<close>, \<open>h\<close>, and let \<open>N\<close> times the unit's milliseconds
  (1, 1000, 60000, 3600000) be below \<open>2 ^ 63\<close>. Then \<open>extractRetryTime\<close> returns no
  error, and the \<open>int\<close> it returns is that product.
\<close>

theorem extractRetryTime_units:
  assumes "pattern_at msg k N u"
    and "\<forall>j<k. \<forall>N' u'. \<not> pattern_at msg j N' u'"
    and "known_unit u"
    and "decimal N * unit_millis u < 2 ^ 63"
  shows "map_sum id sint (extractRetryTime msg) = Inr (int (decimal N) * int (unit_millis u))"
proof -
  from assms(3) have "1 \<le> unit_millis u" by (auto simp: known_unit_def unit_millis_def)
  then have "decimal N \<le> decimal N * unit_millis u" by simp
  with assms(4) have small: "\<not> 2 ^ 63 \<le> decimal N" by linarith
  have "extractRetryTime msg = Inr (word_of_nat (decimal N * unit_millis u))"
    using extractRetryTime_leftmost [OF assms(1,2)] small assms(3) by simp
  then show ?thesis using sint_word_of_nat_small [OF assms(4)] by simp
qed

theorem extractRetryTime_units_witness:
  "pattern_at ''Wait. Please try again in 12m. Bye'' 6 ''12'' ''m'' \<and>
   \<not> (\<exists>j<6. \<exists>N' u'. pattern_at ''Wait. Please try again in 12m. Bye'' j N' u') \<and>
   known_unit ''m'' \<and> decimal ''12'' * unit_millis ''m'' < 2 ^ 63 \<and>
   map_sum id sint (extractRetryTime ''Wait. Please try again in 12m. Bye'') = Inr 720000"
proof -
  have h1: "pattern_at ''Wait. Please try again in 12m. Bye'' 6 ''12'' ''m''"
    by (simp add: pattern_at_def parser_eval)
  have "\<forall>j<6. match_here (drop j ''Wait. Please try again in 12m. Bye'') = None"
    by (simp add: All_less_Suc numeral_eq_Suc match_here_def retry_phrase_def)
  then have h2: "\<forall>j<6. \<forall>N' u'. \<not> pattern_at ''Wait. Please try again in 12m. Bye'' j N' u'"
    by (simp only: no_pattern_before_iff)
  have h3: "known_unit ''m''" by (simp add: known_unit_def)
  have h4: "decimal ''12'' * unit_millis ''m'' < 2 ^ 63"
    by (simp add: decimal_def unit_millis_def digit_val_def)
  have v: "int (decimal ''12'') * int (unit_millis ''m'') = 720000"
    by (simp add: decimal_def unit_millis_def digit_val_def)
  from h2 have h2': "\<not> (\<exists>j<6. \<exists>N' u'. pattern_at ''Wait. Please try again in 12m. Bye'' j N' u')"
    by blast
  from extractRetryTime_units [OF h1 h2 h3 h4] v
  have "map_sum id sint (extractRetryTime ''Wait. Please try again in 12m. Bye'') = Inr 720000"
    by simp
  with h1 h2' h3 h4 show ?thesis by blast
qed

text \<open>
  The pattern matches and the unit is \<open>ms\<close>, or is the unknown \<open>x\<close>: the number is
  beyond \<open>int\<close>, and the error is the range error of \<open>strconv.Atoi\<close>, neither of the
  two the claim lists.
\<close>

theorem extractRetryTime_errors_counterexample:
  "pattern_at ''Please try again in 18446744073709551616ms.'' 0 ''18446744073709551616'' ''ms'' \<and>
   extractRetryTime ''Please try again in 18446744073709551616ms.'' = Inl (AtoiFailed ErrRange) \<and>
   pattern_at ''Please try again in 9223372036854775808x.'' 0 ''9223372036854775808'' ''x'' \<and>
   extractRetryTime ''Please try again in 9223372036854775808x.'' = Inl (AtoiFailed ErrRange)"
  by (simp add: pattern_at_def parser_eval)

text \<open>
  Claim C4, as amended. \<open>extractRetryTime\<close> fails with the pattern-not-found error
  exactly on the messages that hold no substring of the shape
  \<open>Please try again in <number><letters>.\<close>. On a message whose leftmost such substring
  has the digits \<open>N\<close> and the letters \<open>u\<close>, it fails with the range error of
  \<open>strconv.Atoi\<close> exactly when \<open>N\<close> is \<open>2 ^ 63\<close> or more, with the unknown-unit error
  exactly when \<open>N\<close> is below \<open>2 ^ 63\<close> and \<open>u\<close> is none of \<open>ms\<close>, \<open>s\<close>, \<open>m\<close>, \<open>h\<close>, and it
  returns an error in exactly these cases: on no message other than those without the
  shape and those whose leftmost match has such a number or such a unit.
\<close>

theorem extractRetryTime_errors:
  "(extractRetryTime msg = Inl RetryTimeNotFound) = (\<forall>k N u. \<not> pattern_at msg k N u) \<and>
   (pattern_at msg k N u \<and> (\<forall>j<k. \<forall>N' u'. \<not> pattern_at msg j N' u') \<longrightarrow>
      (extractRetryTime msg = Inl (AtoiFailed ErrRange)) = (2 ^ 63 \<le> decimal N) \<and>
      (extractRetryTime msg = Inl (UnknownTimeUnit u)) = (decimal N < 2 ^ 63 \<and> \<not> known_unit u) \<and>
      isl (extractRetryTime msg) = (2 ^ 63 \<le> decimal N \<or> \<not> known_unit u)) \<and>
   isl (extractRetryTime msg) =
     ((\<forall>i M v. \<not> pattern_at msg i M v) \<or>
      (\<exists>i M v. pattern_at msg i M v \<and> (\<forall>j<i. \<forall>N' u'. \<not> pattern_at msg j N' u') \<and>
         (2 ^ 63 \<le> decimal M \<or> \<not> known_unit v)))"
proof (intro conjI impI)
  show "(extractRetryTime msg = Inl RetryTimeNotFound) = (\<forall>k N u. \<not> pattern_at msg k N u)"
    unfolding no_pattern_iff
    by (auto simp: extractRetryTime_def split: option.splits prod.splits)
next
  assume "pattern_at msg k N u \<and> (\<forall>j<k. \<forall>N' u'. \<not> pattern_at msg j N' u')"
  then have e: "extractRetryTime msg =
           (if 2 ^ 63 \<le> decimal N then Inl (AtoiFailed ErrRange)
            else if known_unit u then Inr (word_of_nat (decimal N * unit_millis u))
            else Inl (UnknownTimeUnit u))"
    using extractRetryTime_leftmost [of msg k N u] by blast
  show "(extractRetryTime msg = Inl (AtoiFailed ErrRange)) = (2 ^ 63 \<le> decimal N)"
    unfolding e by simp
  show "(extractRetryTime msg = Inl (UnknownTimeUnit u)) = (decimal N < 2 ^ 63 \<and> \<not> known_unit u)"
    unfolding e by auto
  show "isl (extractRetryTime msg) = (2 ^ 63 \<le> decimal N \<or> \<not> known_unit u)"
    unfolding e by simp
next
  show "isl (extractRetryTime msg) =
     ((\<forall>i M v. \<not> pattern_at msg i M v) \<or>
      (\<exists>i M v. pattern_at msg i M v \<and> (\<forall>j<i. \<forall>N' u'. \<not> pattern_at msg j N' u') \<and>
         (2 ^ 63 \<le> decimal M \<or> \<not> known_unit v)))"
    by (rule extractRetryTime_isl)
qed

theorem extractRetryTime_errors_witness:
  "pattern_at ''Please try again in 5x.'' 0 ''5'' ''x'' \<and>
   decimal ''5'' < 2 ^ 63 \<and> \<not> known_unit ''x'' \<and>
   extractRetryTime ''Please try again in 5x.'' = Inl (UnknownTimeUnit ''x'') \<and>
   isl (extractRetryTime ''Please try again in 5x.'')"
proof -
  have h1: "pattern_at ''Please try again in 5x.'' 0 ''5'' ''x''"
    by (simp add: pattern_at_def parser_eval)
  have h2: "\<forall>j<0::nat. \<forall>N' u'. \<not> pattern_at ''Please try again in 5x.'' j N' u'"
    by simp
  have h3: "decimal ''5'' < 2 ^ 63" by (simp add: decimal_def digit_val_def)
  have h4: "\<not> known_unit ''x''" by (simp add: known_unit_def)
  from extractRetryTime_errors [of "''Please try again in 5x.''" 0 "''5''" "''x''"] h1 h2
  have "(extractRetryTime ''Please try again in 5x.'' = Inl (UnknownTimeUnit ''x'')) =
          (decimal ''5'' < 2 ^ 63 \<and> \<not> known_unit ''x'')"
    and "isl (extractRetryTime ''Please try again in 5x.'') =
          (2 ^ 63 \<le> decimal ''5'' \<or> \<not> known_unit ''x'')"
    by blast+
  with h1 h3 h4 show ?thesis by blast
qed

text \<open>
  The unit is the upper-case \<open>S\<close> and the number is beyond \<open>int\<close>: the error is the
  range error of \<open>strconv.Atoi\<close>, raised before the unit is looked at.
\<close>

theorem extractRetryTime_uppercase_counterexample:
  "pattern_at ''Please try again in 9223372036854775808S.'' 0 ''9223372036854775808'' ''S'' \<and>
   list_ex is_upper ''S'' \<and>
   extractRetryTime ''Please try again in 9223372036854775808S.'' = Inl (AtoiFailed ErrRange)"
  by (simp add: pattern_at_def parser_eval)

text \<open>
  Claim C10, as amended. The unit is compared byte for byte: on a message whose leftmost
  substring of the shape \<open>Please try again in <N><unit>.\<close> has a unit with an upper-case
  letter in it (the regular expression accepts it) and a number \<open>N\<close> below \<open>2 ^ 63\<close>,
  \<open>extractRetryTime\<close> fails with the unknown-unit error.
\<close>

theorem extractRetryTime_uppercase:
  assumes "pattern_at msg k N u"
    and "\<forall>j<k. \<forall>N' u'. \<not> pattern_at msg j N' u'"
    and "list_ex is_upper u"
    and "decimal N < 2 ^ 63"
  shows "extractRetryTime msg = Inl (UnknownTimeUnit u)"
proof -
  from assms(3) have "\<not> known_unit u" using known_unit_lower by blast
  with assms(4) show ?thesis
    using extractRetryTime_leftmost [OF assms(1,2)] by simp
qed

theorem extractRetryTime_uppercase_witness:
  "pattern_at ''Please try again in 30Ms.'' 0 ''30'' ''Ms'' \<and>
   list_ex is_upper ''Ms'' \<and> decimal ''30'' < 2 ^ 63 \<and>
   extractRetryTime ''Please try again in 30Ms.'' = Inl (UnknownTimeUnit ''Ms'')"
proof -
  have h1: "pattern_at ''Please try again in 30Ms.'' 0 ''30'' ''Ms''"
    by (simp add: pattern_at_def parser_eval)
  have h2: "\<forall>j<0::nat. \<forall>N' u'. \<not> pattern_at ''Please try again in 30Ms.'' j N' u'"
    by simp
  have h3: "list_ex is_upper ''Ms''" by (simp add: is_upper_def)
  have h4: "decimal ''30'' < 2 ^ 63" by (simp add: decimal_def digit_val_def)
  from h1 h3 h4 extractRetryTime_uppercase [OF h1 h2 h3 h4] show ?thesis by blast
qed

section \<open>The retry controller: lemmas\<close>

text \<open>
  One pass of the loop in each of its branches, then runs of passes: \<open>k\<close> rate-limited
  responses with waiting enabled lead to \<open>k\<close> sleeps and \<open>k\<close> further requests.
\<close>

lemma makeReq_stream: "Stream req \<Longrightarrow> makeReq e c req w = (Inl UseStreamEndpoint, w)"
  by (simp add: makeReq_def)

lemma makeReq_received:
  assumes "\<not> Stream req" and "Marshal e req = Some j" and "NewRequest e (completionsURL c)"
    and "Do e (length (sent w)) (wire_request c j) = Received r b"
  shows "makeReq e c req w = (Inr (r, b), w\<lparr>sent := sent w @ [wire_request c j]\<rparr>)"
  using assms by (simp add: makeReq_def wire_request_def Let_def)

lemma makeReq_send_failed:
  assumes "\<not> Stream req" and "Marshal e req = Some j" and "NewRequest e (completionsURL c)"
    and "Do e (length (sent w)) (wire_request c j) = SendFailed"
  shows "makeReq e c req w = (Inl SendRequestFailed, w\<lparr>sent := sent w @ [wire_request c j]\<rparr>)"
  using assms by (simp add: makeReq_def wire_request_def Let_def)

lemma retry_loop_done:
  "StatusCode resp \<noteq> 429 \<Longrightarrow> retry_loop e c req retry resp body w = (LoopDone resp body, w)"
  by (subst retry_loop.simps) simp

lemma retry_loop_exhausted:
  "StatusCode resp = 429 \<Longrightarrow>
   retry_loop e c req maxRetry resp body w =
     (LoopReturn (RetryBudgetExhausted 6 5 429 body), w)"
  by (subst retry_loop.simps) (simp add: maxRetry_def)

lemma retry_loop_undecodable:
  "StatusCode resp = 429 \<Longrightarrow> retry < maxRetry \<Longrightarrow> UnmarshalError e body = None \<Longrightarrow>
   retry_loop e c req retry resp body w = (LoopReturn (ErrorBodyUnmarshalFailed 429 body), w)"
  by (subst retry_loop.simps) simp

lemma retry_loop_wait:
  assumes "StatusCode resp = 429" and "retry < maxRetry"
    and "UnmarshalError e body = Some er" and "wait_on_ratelimit c"
  shows "retry_loop e c req retry resp body w =
           (case makeReq e c req (Sleep (retry_wait c resp) w) of
              (Inl err1, w2) \<Rightarrow> (LoopPanic, w2)
            | (Inr (resp1, body1), w2) \<Rightarrow> retry_loop e c req (retry + 1) resp1 body1 w2)"
  using assms
  by (subst retry_loop.simps) (simp add: retry_wait_def Let_def split: prod.splits)

lemma retry_loop_nowait:
  assumes "StatusCode resp = 429" and "retry < maxRetry"
    and "UnmarshalError e body = Some er" and "\<not> wait_on_ratelimit c"
  shows "retry_loop e c req retry resp body w =
           (case snd (Atoi (Header_Get (Header resp) ''retry-after'')) of
              Some err1 \<Rightarrow> (LoopReturn (RetryTimeParseFailed 429 body), w)
            | None \<Rightarrow> retry_loop e c req (retry + 1) resp body w)"
  using assms
  by (subst retry_loop.simps) (simp add: Let_def split: prod.splits option.splits)

lemma map_upt_Suc_shift: "map f [0..<Suc k] = f 0 # map (\<lambda>i. f (Suc i)) [0..<k]"
  by (simp add: upt_conv_Cons map_Suc_upt [symmetric] del: upt_Suc)

lemma retry_loop_run:
  assumes "\<not> Stream req" and "Marshal e req = Some j" and "NewRequest e (completionsURL c)"
    and "wait_on_ratelimit c"
    and "\<forall>i<k. StatusCode (rs i) = 429 \<and> UnmarshalError e (bs i) \<noteq> None"
    and "\<forall>i<k. Do e (length (sent w) + i) (wire_request c j) = Received (rs (Suc i)) (bs (Suc i))"
    and "retry + k \<le> maxRetry"
  shows "retry_loop e c req retry (rs 0) (bs 0) w =
           retry_loop e c req (retry + k) (rs k) (bs k)
             (w\<lparr>sent := sent w @ replicate k (wire_request c j),
                slept := slept w @ map (\<lambda>i. retry_wait c (rs i)) [0..<k]\<rparr>)"
  using assms(5-7)
proof (induction k arbitrary: retry rs bs w)
  case 0
  show ?case by simp
next
  case (Suc k)
  let ?q = "wire_request c j"
  let ?w1 = "Sleep (retry_wait c (rs 0)) w"
  let ?w2 = "?w1\<lparr>sent := sent ?w1 @ [?q]\<rparr>"
  from Suc.prems(1) have s0: "StatusCode (rs 0) = 429" and "UnmarshalError e (bs 0) \<noteq> None"
    by auto
  then obtain er where u0: "UnmarshalError e (bs 0) = Some er" by auto
  from Suc.prems(3) have r: "retry < maxRetry" by simp
  from Suc.prems(2) have "Do e (length (sent w) + 0) ?q = Received (rs (Suc 0)) (bs (Suc 0))"
    by blast
  then have d: "Do e (length (sent ?w1)) ?q = Received (rs (Suc 0)) (bs (Suc 0))"
    by (simp add: Sleep_def)
  have m: "makeReq e c req ?w1 = (Inr (rs (Suc 0), bs (Suc 0)), ?w2)"
    using assms(1-3) d by (rule makeReq_received)
  have step: "retry_loop e c req retry (rs 0) (bs 0) w =
                retry_loop e c req (Suc retry) (rs (Suc 0)) (bs (Suc 0)) ?w2"
    using retry_loop_wait [OF s0 r u0 assms(4), of req w] m by simp
  have p1: "\<forall>i<k. StatusCode ((rs \<circ> Suc) i) = 429 \<and> UnmarshalError e ((bs \<circ> Suc) i) \<noteq> None"
    using Suc.prems(1) by auto
  have p2: "\<forall>i<k. Do e (length (sent ?w2) + i) ?q = Received ((rs \<circ> Suc) (Suc i)) ((bs \<circ> Suc) (Suc i))"
  proof (intro allI impI)
    fix i assume "i < k"
    then have "Suc i < Suc k" by simp
    with Suc.prems(2) have "Do e (length (sent w) + Suc i) ?q = Received (rs (Suc (Suc i))) (bs (Suc (Suc i)))"
      by blast
    then show "Do e (length (sent ?w2) + i) ?q = Received ((rs \<circ> Suc) (Suc i)) ((bs \<circ> Suc) (Suc i))"
      by (simp add: Sleep_def)
  qed
  have p3: "Suc retry + k \<le> maxRetry" using Suc.prems(3) by simp
  have ih: "retry_loop e c req (Suc retry) ((rs \<circ> Suc) 0) ((bs \<circ> Suc) 0) ?w2 =
           retry_loop e c req (Suc retry + k) ((rs \<circ> Suc) k) ((bs \<circ> Suc) k)
             (?w2\<lparr>sent := sent ?w2 @ replicate k ?q,
                slept := slept ?w2 @ map (\<lambda>i. retry_wait c ((rs \<circ> Suc) i)) [0..<k]\<rparr>)"
    using p1 p2 p3 by (rule Suc.IH)
  have w: "?w2\<lparr>sent := sent ?w2 @ replicate k ?q,
                slept := slept ?w2 @ map (\<lambda>i. retry_wait c ((rs \<circ> Suc) i)) [0..<k]\<rparr> =
           w\<lparr>sent := sent w @ replicate (Suc k) ?q,
                slept := slept w @ map (\<lambda>i. retry_wait c (rs i)) [0..<Suc k]\<rparr>"
    unfolding map_upt_Suc_shift by (simp add: Sleep_def)
  show ?case using step ih unfolding w by simp
qed

lemma CreateChatCompletion_first:
  assumes "\<not> Stream req" and "Marshal e req = Some j" and "NewRequest e (completionsURL c)"
    and "Do e (length (sent w)) (wire_request c j) = Received r b"
  shows "CreateChatCompletion e c req w =
           after_loop e (retry_loop e c req 0 r b (w\<lparr>sent := sent w @ [wire_request c j]\<rparr>))"
proof -
  have m: "makeReq e c req w = (Inr (r, b), w\<lparr>sent := sent w @ [wire_request c j]\<rparr>)"
    using assms by (rule makeReq_received)
  show ?thesis
  proof (cases "StatusCode r = 200")
    case True
    then have "StatusCode r \<noteq> 429" by simp
    then show ?thesis using m True by (simp add: CreateChatCompletion_def retry_loop_done)
  next
    case False
    then show ?thesis using m by (simp add: CreateChatCompletion_def)
  qed
qed

lemma CreateChatCompletion_retries:
  assumes "\<not> Stream req" and "Marshal e req = Some j" and "NewRequest e (completionsURL c)"
    and "k = 0 \<or> wait_on_ratelimit c"
    and "\<forall>i\<le>k. Do e (length (sent w) + i) (wire_request c j) = Received (rs i) (bs i)"
    and "\<forall>i<k. StatusCode (rs i) = 429 \<and> UnmarshalError e (bs i) \<noteq> None"
    and "k \<le> maxRetry"
  shows "CreateChatCompletion e c req w =
           after_loop e (retry_loop e c req k (rs k) (bs k)
             (w\<lparr>sent := sent w @ replicate (Suc k) (wire_request c j),
                slept := slept w @ map (\<lambda>i. retry_wait c (rs i)) [0..<k]\<rparr>))"
proof -
  let ?q = "wire_request c j"
  let ?w0 = "w\<lparr>sent := sent w @ [?q]\<rparr>"
  from assms(5) have "Do e (length (sent w) + 0) ?q = Received (rs 0) (bs 0)" by blast
  then have d0: "Do e (length (sent w)) ?q = Received (rs 0) (bs 0)" by simp
  have first: "CreateChatCompletion e c req w = after_loop e (retry_loop e c req 0 (rs 0) (bs 0) ?w0)"
    using assms(1-3) d0 by (rule CreateChatCompletion_first)
  show ?thesis
  proof (cases "k = 0")
    case True
    then show ?thesis using first by simp
  next
    case False
    with assms(4) have wait: "wait_on_ratelimit c" by simp
    have p2: "\<forall>i<k. Do e (length (sent ?w0) + i) ?q = Received (rs (Suc i)) (bs (Suc i))"
    proof (intro allI impI)
      fix i assume "i < k"
      then have "Suc i \<le> k" by simp
      with assms(5) have "Do e (length (sent w) + Suc i) ?q = Received (rs (Suc i)) (bs (Suc i))"
        by blast
      then show "Do e (length (sent ?w0) + i) ?q = Received (rs (Suc i)) (bs (Suc i))" by simp
    qed
    have p3: "0 + k \<le> maxRetry" using assms(7) by simp
    have run: "retry_loop e c req 0 (rs 0) (bs 0) ?w0 =
           retry_loop e c req (0 + k) (rs k) (bs k)
             (?w0\<lparr>sent := sent ?w0 @ replicate k ?q,
                slept := slept ?w0 @ map (\<lambda>i. retry_wait c (rs i)) [0..<k]\<rparr>)"
      using assms(1-3) wait assms(6) p2 p3 by (rule retry_loop_run)
    have w: "?w0\<lparr>sent := sent ?w0 @ replicate k ?q,
                slept := slept ?w0 @ map (\<lambda>i. retry_wait c (rs i)) [0..<k]\<rparr> =
             w\<lparr>sent := sent w @ replicate (Suc k) ?q,
                slept := slept w @ map (\<lambda>i. retry_wait c (rs i)) [0..<k]\<rparr>"
      by simp
    show ?thesis using first run unfolding w by simp
  qed
qed

lemma retry_loop_nowait_all:
  assumes "StatusCode resp = 429" and "\<not> wait_on_ratelimit c"
    and "UnmarshalError e body = Some er"
    and "snd (Atoi (Header_Get (Header resp) ''retry-after'')) = None"
  shows "n = maxRetry - retry \<Longrightarrow> retry \<le> maxRetry \<Longrightarrow>
         retry_loop e c req retry resp body w =
           (LoopReturn (RetryBudgetExhausted 6 5 429 body), w)"
proof (induction n arbitrary: retry)
  case 0
  then have "retry = maxRetry" by simp
  then show ?case using assms(1) by (simp add: retry_loop_exhausted)
next
  case (Suc n)
  then have r: "retry < maxRetry" and n: "n = maxRetry - (retry + 1)" and le: "retry + 1 \<le> maxRetry"
    by simp_all
  have "retry_loop e c req retry resp body w = retry_loop e c req (retry + 1) resp body w"
    using retry_loop_nowait [OF assms(1) r assms(3) assms(2), of req w] assms(4) by simp
  also have "\<dots> = (LoopReturn (RetryBudgetExhausted 6 5 429 body), w)"
    using n le by (rule Suc.IH)
  finally show ?case .
qed

lemma CreateChatCompletion_nowait:
  assumes "\<not> Stream req" and "Marshal e req = Some j" and "NewRequest e (completionsURL c)"
    and "\<not> wait_on_ratelimit c"
    and "Do e (length (sent w)) (wire_request c j) = Received resp body"
    and "StatusCode resp = 429"
  shows "CreateChatCompletion e c req w =
           (Returned (Inl
              (case UnmarshalError e body of
                 None \<Rightarrow> ErrorBodyUnmarshalFailed 429 body
               | Some er \<Rightarrow>
                   (case snd (Atoi (Header_Get (Header resp) ''retry-after'')) of
                      Some err \<Rightarrow> RetryTimeParseFailed 429 body
                    | None \<Rightarrow> RetryBudgetExhausted 6 5 429 body))),
            w\<lparr>sent := sent w @ [wire_request c j]\<rparr>)"
proof -
  let ?w0 = "w\<lparr>sent := sent w @ [wire_request c j]\<rparr>"
  have first: "CreateChatCompletion e c req w = after_loop e (retry_loop e c req 0 resp body ?w0)"
    using assms(1-3,5) by (rule CreateChatCompletion_first)
  have z: "0 < maxRetry" by (simp add: maxRetry_def)
  show ?thesis
  proof (cases "UnmarshalError e body")
    case None
    then show ?thesis using first retry_loop_undecodable [OF assms(6) z None, of c req ?w0]
      by (simp add: after_loop_def)
  next
    case (Some er)
    show ?thesis
    proof (cases "snd (Atoi (Header_Get (Header resp) ''retry-after''))")
      case a: None
      have "retry_loop e c req 0 resp body ?w0 = (LoopReturn (RetryBudgetExhausted 6 5 429 body), ?w0)"
        using assms(6,4) Some a by (rule retry_loop_nowait_all) simp_all
      then show ?thesis using first Some a by (simp add: after_loop_def)
    next
      case a: (Some err)
      then show ?thesis
        using first Some retry_loop_nowait [OF assms(6) z Some assms(4), of req ?w0]
        by (simp add: after_loop_def)
    qed
  qed
qed

lemma Atoi_small_examples:
  "Atoi ''1'' = (1, None)" "Atoi ''2'' = (2, None)"
  "Atoi ''9223372036854776'' = (9223372036854776, None)"
  by (simp_all add: Atoi_def ParseUint_def is_digit_def digit_val_def maxUint64_def)

lemma retry_wait_one:
  assumes "Header_Get (Header r) ''retry-after'' = ''1''"
    and "max_wait_on_ratelimit_in_ms c = 5000"
  shows "retry_wait c r = 1000 * Millisecond"
  using assms by (simp add: retry_wait_def Atoi_small_examples word_sless_alt)

lemma retry_wait_demo:
  "retry_wait (demo_client b) (rate_limited ''2'') = 2000 * Millisecond"
  "retry_wait (demo_client b) (rate_limited ''1'') = 1000 * Millisecond"
  "retry_wait (demo_client b) (rate_limited ''9223372036854776'') = 192 * Millisecond"
  by (simp_all add: retry_wait_def demo_client_def NewClient_def rate_limited_def Header_Get_def
      Atoi_small_examples word_sless_alt Millisecond_def)



section \<open>The retry controller: claims\<close>

text \<open>
  Claim C1. A request with \<open>Stream\<close> set makes \<open>makeReq\<close> return its error
  (\<open>use CreateChatCompletionStream for streaming completions\<close>) without calling the
  transport. \<open>CreateChatCompletion\<close> does not return that error: it reads
  \<open>resp.StatusCode\<close> of the nil response and panics. No request is sent.
\<close>

theorem CreateChatCompletion_stream_panics:
  "makeReq e c (req\<lparr>Stream := True\<rparr>) w = (Inl UseStreamEndpoint, w) \<and>
   CreateChatCompletion e c (req\<lparr>Stream := True\<rparr>) w = (Panicked, w)"
  by (simp add: CreateChatCompletion_def makeReq_stream)

text \<open>
  Claim C2. When \<open>json.Marshal\<close> fails, when the transport fails on the first
  request, and when it fails on a retry after a rate-limited response,
  \<open>CreateChatCompletion\<close> panics on the nil response (lines 148 and 178) instead of
  returning the error of \<open>makeReq\<close>.
\<close>

theorem CreateChatCompletion_failure_panics:
  "CreateChatCompletion (e\<lparr>Marshal := \<lambda>r. None\<rparr>) c (req\<lparr>Stream := False\<rparr>) w = (Panicked, w) \<and>
   CreateChatCompletion (e\<lparr>Marshal := \<lambda>r. Some j, NewRequest := \<lambda>u. True, Do := \<lambda>n q. SendFailed\<rparr>)
       c (req\<lparr>Stream := False\<rparr>) w =
     (Panicked, w\<lparr>sent := sent w @ [wire_request c j]\<rparr>) \<and>
   CreateChatCompletion
       (demo_env (\<lambda>n. if n = 0 then Received (rate_limited ''1'') ''limit'' else SendFailed))
       (demo_client True) demo_request fresh =
     (Panicked, \<lparr>sent = replicate 2 (wire_request (demo_client True) ''{}''),
                 slept = [1000 * Millisecond]\<rparr>)"
proof (intro conjI)
  show "CreateChatCompletion (e\<lparr>Marshal := \<lambda>r. None\<rparr>) c (req\<lparr>Stream := False\<rparr>) w = (Panicked, w)"
    by (simp add: CreateChatCompletion_def makeReq_def Let_def)
  show "CreateChatCompletion (e\<lparr>Marshal := \<lambda>r. Some j, NewRequest := \<lambda>u. True, Do := \<lambda>n q. SendFailed\<rparr>)
       c (req\<lparr>Stream := False\<rparr>) w =
     (Panicked, w\<lparr>sent := sent w @ [wire_request c j]\<rparr>)"
    by (simp add: CreateChatCompletion_def makeReq_def wire_request_def Let_def)
  let ?e = "demo_env (\<lambda>n. if n = 0 then Received (rate_limited ''1'') ''limit'' else SendFailed)"
  let ?c = "demo_client True"
  let ?q = "wire_request ?c ''{}''"
  let ?w0 = "fresh\<lparr>sent := sent fresh @ [?q]\<rparr>"
  let ?w1 = "Sleep (retry_wait ?c (rate_limited ''1'')) ?w0"
  have h1: "\<not> Stream demo_request" by (simp add: demo_request_def)
  have h2: "Marshal ?e demo_request = Some ''{}''" by (simp add: demo_env_def)
  have h3: "NewRequest ?e (completionsURL ?c)" by (simp add: demo_env_def)
  have h4: "Do ?e (length (sent fresh)) ?q = Received (rate_limited ''1'') ''limit''"
    by (simp add: demo_env_def fresh_def)
  have first: "CreateChatCompletion ?e ?c demo_request fresh =
      after_loop ?e (retry_loop ?e ?c demo_request 0 (rate_limited ''1'') ''limit'' ?w0)"
    using h1 h2 h3 h4 by (rule CreateChatCompletion_first)
  have s: "StatusCode (rate_limited ''1'') = 429" by (simp add: rate_limited_def)
  have z: "0 < maxRetry" by (simp add: maxRetry_def)
  have u: "UnmarshalError ?e ''limit'' = Some \<lparr>ErrMessage = ''limit'', ErrType = [], ErrCode = []\<rparr>"
    by (simp add: demo_env_def)
  have wt: "wait_on_ratelimit ?c" by (simp add: demo_client_def NewClient_def)
  have d: "Do ?e (length (sent ?w1)) ?q = SendFailed"
    by (simp add: demo_env_def fresh_def Sleep_def)
  have m: "makeReq ?e ?c demo_request ?w1 = (Inl SendRequestFailed, ?w1\<lparr>sent := sent ?w1 @ [?q]\<rparr>)"
    using h1 h2 h3 d by (rule makeReq_send_failed)
  have "retry_loop ?e ?c demo_request 0 (rate_limited ''1'') ''limit'' ?w0 =
      (LoopPanic, ?w1\<lparr>sent := sent ?w1 @ [?q]\<rparr>)"
    using retry_loop_wait [OF s z u wt, of demo_request ?w0] m by simp
  with first show "CreateChatCompletion ?e ?c demo_request fresh =
     (Panicked, \<lparr>sent = replicate 2 ?q, slept = [1000 * Millisecond]\<rparr>)"
    by (simp add: after_loop_def fresh_def Sleep_def retry_wait_demo eval_nat_numeral)
qed

text \<open>
  Claim C5. With waiting enabled, when every response is a 429 with a decodable error
  body, \<open>CreateChatCompletion\<close> sends six requests (the first and five retries),
  sleeps five times, never sends a seventh, and returns the retry-budget error with the
  status code 429 and the body of the sixth response. The \<open>retry-after\<close> header need
  not be an integer for this.
\<close>

theorem rate_limit_budget:
  assumes "\<not> Stream req" and "Marshal e req = Some j" and "NewRequest e (completionsURL c)"
    and "wait_on_ratelimit c"
    and "\<forall>n. Do e (length (sent w) + n) (wire_request c j) = Received (rs n) (bs n)"
    and "\<forall>n. StatusCode (rs n) = 429 \<and> UnmarshalError e (bs n) \<noteq> None"
  shows "CreateChatCompletion e c req w =
           (Returned (Inl (RetryBudgetExhausted 6 5 429 (bs 5))),
            w\<lparr>sent := sent w @ replicate 6 (wire_request c j),
              slept := slept w @ map (\<lambda>i. retry_wait c (rs i)) [0..<5]\<rparr>)"
proof -
  have a4: "(5::nat) = 0 \<or> wait_on_ratelimit c" using assms(4) by simp
  have a5: "\<forall>i\<le>5. Do e (length (sent w) + i) (wire_request c j) = Received (rs i) (bs i)"
    using assms(5) by blast
  have a6: "\<forall>i<5. StatusCode (rs i) = 429 \<and> UnmarshalError e (bs i) \<noteq> None"
    using assms(6) by blast
  have a7: "5 \<le> maxRetry" by (simp add: maxRetry_def)
  have s: "StatusCode (rs 5) = 429" using assms(6) by blast
  have "CreateChatCompletion e c req w =
           after_loop e (retry_loop e c req 5 (rs 5) (bs 5)
             (w\<lparr>sent := sent w @ replicate (Suc 5) (wire_request c j),
                slept := slept w @ map (\<lambda>i. retry_wait c (rs i)) [0..<5]\<rparr>))"
    using assms(1-3) a4 a5 a6 a7 by (rule CreateChatCompletion_retries)
  moreover have "retry_loop e c req 5 (rs 5) (bs 5) w' =
      (LoopReturn (RetryBudgetExhausted 6 5 429 (bs 5)), w')" for w'
    using retry_loop_exhausted [OF s, of e c req "bs 5" w'] by (simp add: maxRetry_def)
  ultimately show ?thesis by (simp add: after_loop_def eval_nat_numeral)
qed

theorem rate_limit_budget_witness:
  "CreateChatCompletion (demo_env (\<lambda>n. Received (rate_limited ''2'') ''limit''))
      (demo_client True) demo_request fresh =
     (Returned (Inl (RetryBudgetExhausted 6 5 429 ''limit'')),
      \<lparr>sent = replicate 6 (wire_request (demo_client True) ''{}''),
       slept = replicate 5 (2000 * Millisecond)\<rparr>)"
proof -
  let ?e = "demo_env (\<lambda>n. Received (rate_limited ''2'') ''limit'')"
  let ?c = "demo_client True"
  have h1: "\<not> Stream demo_request" by (simp add: demo_request_def)
  have h2: "Marshal ?e demo_request = Some ''{}''" by (simp add: demo_env_def)
  have h3: "NewRequest ?e (completionsURL ?c)" by (simp add: demo_env_def)
  have h4: "wait_on_ratelimit ?c" by (simp add: demo_client_def NewClient_def)
  have h5: "\<forall>n. Do ?e (length (sent fresh) + n) (wire_request ?c ''{}'') =
      Received ((\<lambda>n. rate_limited ''2'') n) ((\<lambda>n. ''limit'') n)"
    by (simp add: demo_env_def)
  have h6: "\<forall>n. StatusCode ((\<lambda>n. rate_limited ''2'') n) = 429 \<and>
      UnmarshalError ?e ((\<lambda>n. ''limit'') n) \<noteq> None"
    by (simp add: demo_env_def rate_limited_def)
  from rate_limit_budget [OF h1 h2 h3 h4 h5 h6] show ?thesis
    by (simp add: fresh_def retry_wait_demo map_replicate_const)
qed

text \<open>
  Claim C6. Three 429 responses with \<open>retry-after: 1\<close> and decodable error bodies,
  then a 200 with a decodable body, waiting enabled and a maximum wait of 5000 ms:
  \<open>CreateChatCompletion\<close> sleeps exactly three times, 1000 ms each, sends four
  requests and returns the decoded payload of the fourth response.
\<close>

theorem three_waits_then_success:
  assumes "\<not> Stream req" and "Marshal e req = Some j" and "NewRequest e (completionsURL c)"
    and "wait_on_ratelimit c" and "max_wait_on_ratelimit_in_ms c = 5000"
    and "\<forall>i<3. Do e (length (sent w) + i) (wire_request c j) = Received (rs i) (bs i) \<and>
           StatusCode (rs i) = 429 \<and> Header_Get (Header (rs i)) ''retry-after'' = ''1'' \<and>
           UnmarshalError e (bs i) \<noteq> None"
    and "Do e (length (sent w) + 3) (wire_request c j) = Received r4 b4"
    and "StatusCode r4 = 200" and "UnmarshalResponse e b4 = Some payload"
  shows "CreateChatCompletion e c req w =
           (Returned (Inr payload),
            w\<lparr>sent := sent w @ replicate 4 (wire_request c j),
              slept := slept w @ replicate 3 (1000 * Millisecond)\<rparr>)"
proof -
  define rs' where "rs' = (\<lambda>i. if i < 3 then rs i else r4)"
  define bs' where "bs' = (\<lambda>i. if i < 3 then bs i else b4)"
  have a4: "(3::nat) = 0 \<or> wait_on_ratelimit c" using assms(4) by simp
  have a5: "\<forall>i\<le>3. Do e (length (sent w) + i) (wire_request c j) = Received (rs' i) (bs' i)"
  proof (intro allI impI)
    fix i :: nat assume "i \<le> 3"
    then consider "i < 3" | "i = 3" by linarith
    then show "Do e (length (sent w) + i) (wire_request c j) = Received (rs' i) (bs' i)"
      using assms(6,7) by cases (simp_all add: rs'_def bs'_def)
  qed
  have a6: "\<forall>i<3. StatusCode (rs' i) = 429 \<and> UnmarshalError e (bs' i) \<noteq> None"
    using assms(6) by (simp add: rs'_def bs'_def)
  have a7: "3 \<le> maxRetry" by (simp add: maxRetry_def)
  have call: "CreateChatCompletion e c req w =
           after_loop e (retry_loop e c req 3 (rs' 3) (bs' 3)
             (w\<lparr>sent := sent w @ replicate (Suc 3) (wire_request c j),
                slept := slept w @ map (\<lambda>i. retry_wait c (rs' i)) [0..<3]\<rparr>))"
    using assms(1-3) a4 a5 a6 a7 by (rule CreateChatCompletion_retries)
  have "\<forall>i<3. retry_wait c (rs' i) = 1000 * Millisecond"
    using assms(5,6) by (simp add: rs'_def retry_wait_one)
  then have sl: "map (\<lambda>i. retry_wait c (rs' i)) [0..<3] = replicate 3 (1000 * Millisecond)"
    by (simp add: eval_nat_numeral)
  have "StatusCode (rs' 3) \<noteq> 429" using assms(8) by (simp add: rs'_def)
  then have "retry_loop e c req 3 (rs' 3) (bs' 3) w' = (LoopDone r4 b4, w')" for w'
    by (simp add: retry_loop_done rs'_def bs'_def)
  with call sl show ?thesis using assms(9) by (simp add: after_loop_def)
qed

theorem three_waits_then_success_witness:
  "CreateChatCompletion
      (demo_env (\<lambda>n. if n < 3 then Received (rate_limited ''1'') ''limit''
                      else Received ok_response ''answer''))
      (demo_client True) demo_request fresh =
     (Returned (Inr demo_payload),
      \<lparr>sent = replicate 4 (wire_request (demo_client True) ''{}''),
       slept = replicate 3 (1000 * Millisecond)\<rparr>)"
proof -
  let ?e = "demo_env (\<lambda>n. if n < 3 then Received (rate_limited ''1'') ''limit''
                      else Received ok_response ''answer'')"
  let ?c = "demo_client True"
  have h1: "\<not> Stream demo_request" by (simp add: demo_request_def)
  have h2: "Marshal ?e demo_request = Some ''{}''" by (simp add: demo_env_def)
  have h3: "NewRequest ?e (completionsURL ?c)" by (simp add: demo_env_def)
  have h4: "wait_on_ratelimit ?c" by (simp add: demo_client_def NewClient_def)
  have h5: "max_wait_on_ratelimit_in_ms ?c = 5000" by (simp add: demo_client_def NewClient_def)
  have h6: "\<forall>i<3. Do ?e (length (sent fresh) + i) (wire_request ?c ''{}'') =
        Received ((\<lambda>i. rate_limited ''1'') i) ((\<lambda>i. ''limit'') i) \<and>
      StatusCode ((\<lambda>i. rate_limited ''1'') i) = 429 \<and>
      Header_Get (Header ((\<lambda>i. rate_limited ''1'') i)) ''retry-after'' = ''1'' \<and>
      UnmarshalError ?e ((\<lambda>i. ''limit'') i) \<noteq> None"
    by (simp add: demo_env_def rate_limited_def fresh_def Header_Get_def)
  have h7: "Do ?e (length (sent fresh) + 3) (wire_request ?c ''{}'') = Received ok_response ''answer''"
    by (simp add: demo_env_def fresh_def)
  have h8: "StatusCode ok_response = 200" by (simp add: ok_response_def)
  have h9: "UnmarshalResponse ?e ''answer'' = Some demo_payload" by (simp add: demo_env_def)
  from three_waits_then_success [OF h1 h2 h3 h4 h5 h6 h7 h8 h9] show ?thesis
    by (simp add: fresh_def)
qed

text \<open>
  Waiting disabled and a 429 whose body decodes (also as a \<open>ChatCompletionResponse\<close>):
  the call returns the retry-budget error, not the decoded body. The loop runs through
  its budget on the same response, without sleeping and without sending.
\<close>

theorem no_wait_counterexample:
  "UnmarshalResponse (demo_env (\<lambda>n. Received (rate_limited ''1'') ''limit'')) ''limit'' =
     Some demo_payload \<and>
   CreateChatCompletion (demo_env (\<lambda>n. Received (rate_limited ''1'') ''limit''))
      (demo_client False) demo_request fresh =
     (Returned (Inl (RetryBudgetExhausted 6 5 429 ''limit'')),
      \<lparr>sent = [wire_request (demo_client False) ''{}''], slept = []\<rparr>)"
proof -
  let ?e = "demo_env (\<lambda>n. Received (rate_limited ''1'') ''limit'')"
  let ?c = "demo_client False"
  have h1: "\<not> Stream demo_request" by (simp add: demo_request_def)
  have h2: "Marshal ?e demo_request = Some ''{}''" by (simp add: demo_env_def)
  have h3: "NewRequest ?e (completionsURL ?c)" by (simp add: demo_env_def)
  have h4: "\<not> wait_on_ratelimit ?c" by (simp add: demo_client_def NewClient_def)
  have h5: "Do ?e (length (sent fresh)) (wire_request ?c ''{}'') = Received (rate_limited ''1'') ''limit''"
    by (simp add: demo_env_def)
  have h6: "StatusCode (rate_limited ''1'') = 429" by (simp add: rate_limited_def)
  have u: "UnmarshalResponse ?e ''limit'' = Some demo_payload" by (simp add: demo_env_def)
  from CreateChatCompletion_nowait [OF h1 h2 h3 h4 h5 h6] u show ?thesis
    by (simp add: fresh_def demo_env_def rate_limited_def Header_Get_def Atoi_small_examples)
qed

text \<open>
  Claim C7, as amended. When the first response is a 429 and waiting is disabled,
  \<open>CreateChatCompletion\<close> performs no sleep, sends no further request and returns an
  error that holds the status code 429 and the body of that response: the
  error-body error when the body does not decode, the retry-time error when
  \<open>retry-after\<close> is not an integer, and the retry-budget error (retry 6, maximum 5)
  otherwise. It never returns a decoded response.
\<close>

theorem no_wait_returns_error:
  assumes "\<not> Stream req" and "Marshal e req = Some j" and "NewRequest e (completionsURL c)"
    and "\<not> wait_on_ratelimit c"
    and "Do e (length (sent w)) (wire_request c j) = Received resp body"
    and "StatusCode resp = 429"
  shows "CreateChatCompletion e c req w =
           (Returned (Inl
              (case UnmarshalError e body of
                 None \<Rightarrow> ErrorBodyUnmarshalFailed 429 body
               | Some er \<Rightarrow>
                   (case snd (Atoi (Header_Get (Header resp) ''retry-after'')) of
                      Some err \<Rightarrow> RetryTimeParseFailed 429 body
                    | None \<Rightarrow> RetryBudgetExhausted 6 5 429 body))),
            w\<lparr>sent := sent w @ [wire_request c j]\<rparr>)"
  using assms by (rule CreateChatCompletion_nowait)

theorem no_wait_returns_error_witness:
  "CreateChatCompletion (demo_env (\<lambda>n. Received (rate_limited ''soon'') ''limit''))
      (demo_client False) demo_request fresh =
     (Returned (Inl (RetryTimeParseFailed 429 ''limit'')),
      \<lparr>sent = [wire_request (demo_client False) ''{}''], slept = []\<rparr>)"
proof -
  let ?e = "demo_env (\<lambda>n. Received (rate_limited ''soon'') ''limit'')"
  let ?c = "demo_client False"
  have h1: "\<not> Stream demo_request" by (simp add: demo_request_def)
  have h2: "Marshal ?e demo_request = Some ''{}''" by (simp add: demo_env_def)
  have h3: "NewRequest ?e (completionsURL ?c)" by (simp add: demo_env_def)
  have h4: "\<not> wait_on_ratelimit ?c" by (simp add: demo_client_def NewClient_def)
  have h5: "Do ?e (length (sent fresh)) (wire_request ?c ''{}'') = Received (rate_limited ''soon'') ''limit''"
    by (simp add: demo_env_def)
  have h6: "StatusCode (rate_limited ''soon'') = 429" by (simp add: rate_limited_def)
  have a: "Atoi ''soon'' = (0, Some ErrSyntax)"
    by (simp add: Atoi_def ParseUint_def is_digit_def)
  from no_wait_returns_error [OF h1 h2 h3 h4 h5 h6] show ?thesis
    by (simp add: fresh_def demo_env_def rate_limited_def Header_Get_def a)
qed




text \<open>
  Claim C9. When the \<open>k\<close>-th response of a call (after \<open>k\<close> retries, \<open>k\<close> at most 5)
  is a 429 whose body does not decode as an \<open>ErrorResponse\<close>, \<open>CreateChatCompletion\<close>
  returns an error at once: the requests sent are the \<open>k + 1\<close> already made and the
  sleeps the \<open>k\<close> already taken, none after that response.
\<close>

theorem undecodable_error_body_terminal:
  assumes "\<not> Stream req" and "Marshal e req = Some j" and "NewRequest e (completionsURL c)"
    and "k = 0 \<or> wait_on_ratelimit c"
    and "\<forall>i\<le>k. Do e (length (sent w) + i) (wire_request c j) = Received (rs i) (bs i) \<and>
           StatusCode (rs i) = 429"
    and "\<forall>i<k. UnmarshalError e (bs i) \<noteq> None"
    and "UnmarshalError e (bs k) = None"
    and "k \<le> maxRetry"
  shows "CreateChatCompletion e c req w =
           (Returned (Inl (if k < maxRetry then ErrorBodyUnmarshalFailed 429 (bs k)
                           else RetryBudgetExhausted 6 5 429 (bs k))),
            w\<lparr>sent := sent w @ replicate (Suc k) (wire_request c j),
              slept := slept w @ map (\<lambda>i. retry_wait c (rs i)) [0..<k]\<rparr>)"
proof -
  have a5: "\<forall>i\<le>k. Do e (length (sent w) + i) (wire_request c j) = Received (rs i) (bs i)"
    using assms(5) by blast
  have a6: "\<forall>i<k. StatusCode (rs i) = 429 \<and> UnmarshalError e (bs i) \<noteq> None"
    using assms(5,6) by auto
  have s: "StatusCode (rs k) = 429" using assms(5) by blast
  have call: "CreateChatCompletion e c req w =
           after_loop e (retry_loop e c req k (rs k) (bs k)
             (w\<lparr>sent := sent w @ replicate (Suc k) (wire_request c j),
                slept := slept w @ map (\<lambda>i. retry_wait c (rs i)) [0..<k]\<rparr>))"
    using assms(1-4) a5 a6 assms(8) by (rule CreateChatCompletion_retries)
  show ?thesis
  proof (cases "k < maxRetry")
    case True
    then show ?thesis
      using call retry_loop_undecodable [OF s True assms(7)] by (simp add: after_loop_def)
  next
    case False
    with assms(8) have "k = maxRetry" by simp
    then show ?thesis
      using call retry_loop_exhausted [OF s] by (simp add: after_loop_def)
  qed
qed

theorem undecodable_error_body_terminal_witness:
  "CreateChatCompletion
      (demo_env (\<lambda>n. if n = 0 then Received (rate_limited ''1'') ''limit''
                      else Received (rate_limited ''1'') ''garbage''))
      (demo_client True) demo_request fresh =
     (Returned (Inl (ErrorBodyUnmarshalFailed 429 ''garbage'')),
      \<lparr>sent = replicate 2 (wire_request (demo_client True) ''{}''),
       slept = [1000 * Millisecond]\<rparr>)"
proof -
  let ?t = "\<lambda>n::nat. if n = 0 then Received (rate_limited ''1'') ''limit''
                      else Received (rate_limited ''1'') ''garbage''"
  let ?e = "demo_env ?t"
  let ?c = "demo_client True"
  let ?rs = "\<lambda>i::nat. rate_limited ''1''"
  let ?bs = "\<lambda>i::nat. if i = 0 then ''limit'' else ''garbage''"
  have h1: "\<not> Stream demo_request" by (simp add: demo_request_def)
  have h2: "Marshal ?e demo_request = Some ''{}''" by (simp add: demo_env_def)
  have h3: "NewRequest ?e (completionsURL ?c)" by (simp add: demo_env_def)
  have h4: "(1::nat) = 0 \<or> wait_on_ratelimit ?c" by (simp add: demo_client_def NewClient_def)
  have h5: "\<forall>i\<le>1. Do ?e (length (sent fresh) + i) (wire_request ?c ''{}'') = Received (?rs i) (?bs i) \<and>
      StatusCode (?rs i) = 429"
    by (simp add: demo_env_def fresh_def rate_limited_def)
  have h6: "\<forall>i<1. UnmarshalError ?e (?bs i) \<noteq> None"
    by (simp add: demo_env_def)
  have h7: "UnmarshalError ?e (?bs 1) = None" by (simp add: demo_env_def)
  have h8: "1 \<le> maxRetry" by (simp add: maxRetry_def)
  from undecodable_error_body_terminal [OF h1 h2 h3 h4 h5 h6 h7 h8] show ?thesis
    by (simp add: fresh_def retry_wait_demo maxRetry_def eval_nat_numeral)
qed

end
